theory Spec2Isabelle
  imports Main "HOL-Library.Sublist"
begin

section \<open>Strings as the server uses them\<close>

text \<open>
  The server (\<^verbatim>\<open>src/unnamed/part_000\<close>, an Express application) tests URLs with
  \<^verbatim>\<open>String.prototype.includes\<close>: whether the argument occurs as a contiguous
  substring. A JavaScript string is modelled as \<^typ>\<open>string\<close>.
\<close>

fun str_includes :: "string \<Rightarrow> string \<Rightarrow> bool" where
  "str_includes [] sub = (sub = [])"
| "str_includes (c # cs) sub = (prefix sub (c # cs) \<or> str_includes cs sub)"

text \<open>The marker of the site's placeholder video (\<^verbatim>\<open>'douyin-pc-web/uuu_'\<close>).\<close>

definition decoy :: "string \<Rightarrow> bool" where
  "decoy url = str_includes url ''douyin-pc-web/uuu_''"

text \<open>
  A variable that holds \<^verbatim>\<open>null\<close> or a string is a \<^typ>\<open>string option\<close>.
  \<^verbatim>\<open>if (s)\<close> is false for \<^verbatim>\<open>null\<close> and for the empty string.
\<close>

definition truthy :: "string option \<Rightarrow> bool" where
  "truthy s = (case s of None \<Rightarrow> False | Some u \<Rightarrow> u \<noteq> [])"

text \<open>\<^verbatim>\<open>s && !s.includes('douyin-pc-web/uuu_')\<close>, the test of lines 571 and 737; its
  negation is \<^verbatim>\<open>!s || s.includes('douyin-pc-web/uuu_')\<close>, the test of lines 678, 747
  and 801.\<close>

definition usable :: "string option \<Rightarrow> bool" where
  "usable s = (case s of None \<Rightarrow> False | Some u \<Rightarrow> u \<noteq> [] \<and> \<not> decoy u)"

section \<open>Stream discovery: \<^verbatim>\<open>extractLiveStreamUrl\<close>\<close>

subsection \<open>Errors and observable effects\<close>

text \<open>
  The function throws two errors of its own (line 99: the link is not a live-room link;
  line 816: no stream address could be found); every other exception comes from the
  browser driver or the file system and carries that layer's message.
\<close>

datatype error = InvalidLink | NoStreamUrl | DriverError string

text \<open>
  What one attempt does to the outside world, in the order it happens: the browser launch
  and close, the two diagnostic files, and the console lines that tell which strategy
  spoke (lines 572, 577, 580, 583, 658, 679, 739, 748, 788, 791, 812, 819).
\<close>

datatype effect =
    Launch
  | Close
  | WriteHtml string
  | Screenshot
  | FoundInDom
  | FoundLiveRequest string
  | FoundMediaRequest string
  | AnalyzeNetwork
  | FoundInJson string
  | TryFurther
  | FoundByScript string
  | TryApi
  | FoundFlv string
  | FoundHls string
  | WarnTestVideoOnly
  | Extracted string

subsection \<open>The browser, as the attempt sees it\<close>

text \<open>
  Scripts evaluated inside the page, navigation and the driver's calls are the browser's
  side of the interface: the model takes their outcomes as given. A call that can reject
  has an outcome \<open>Inl message\<close>, or a field \<open>Some message\<close> when it returns nothing.

  A strategy yields a string or nothing (\<^verbatim>\<open>null\<close>, \<^verbatim>\<open>undefined\<close>).

  The response handler installed at line 592 runs whenever a response arrives while the
  function is suspended at a later \<^verbatim>\<open>await\<close>; the windows name those suspensions: the
  wait of line 673, the evaluation of line 683, the calls of lines 758 and 765, the call
  of line 803 and the call of line 807.
\<close>

datatype window = DuringWait | DuringScript | DuringApi | DuringContent | DuringScreenshot

record api_reply =
  flv_url :: "string option"
  hls_url :: "string option"

text \<open>What the custom script of lines 683 to 735 reads in the page.\<close>

record script_facts =
  frame_video_srcs :: "string option list"
  performance_entries :: "string list option"
  artwork_src :: "string option"

text \<open>
  \<^item> \<open>frame_video_srcs\<close>: for each \<^verbatim>\<open>iframe\<close>, in document order, the \<^verbatim>\<open>src\<close> of its
    first video element; \<open>None\<close> when the frame has none or cannot be read.
  \<^item> \<open>performance_entries\<close>: the names of \<^verbatim>\<open>window.performance.getEntries()\<close>, oldest
    first; \<open>None\<close> when the page has no such interface.
  \<^item> \<open>artwork_src\<close>: \<^verbatim>\<open>navigator.mediaSession.metadata.artwork[0].src\<close>; \<open>None\<close> when
    there is no media session, no metadata or no artwork.
\<close>

record browser =
  launch_rejects :: "string option"
  page_rejects :: "string option"
  request_urls :: "string list"
  has_video :: "string + bool"
  dom_src :: "string + string option"
  cdp_rejects :: "string option"
  json_values :: "window \<Rightarrow> string list list"
  script_page :: "string + script_facts"
  api_fetch :: "string \<Rightarrow> string + api_reply"
  page_content :: "string + string"
  write_throws :: "string option"
  screenshot_rejects :: "string option"
  close_rejects :: "string option"

text \<open>
  \<^item> \<open>launch_rejects\<close>: \<^verbatim>\<open>puppeteer.launch\<close> (line 113) rejects.
  \<^item> \<open>page_rejects\<close>: one of the awaited calls of lines 135 to 385 that no inner
    \<^verbatim>\<open>try\<close> guards rejects (context and page creation, instrumentation, cookie,
    \<^verbatim>\<open>goto\<close> and its timeout, the simulated interaction, the settle waits).
  \<^item> \<open>request_urls\<close>: the URLs of the requests the page issued before line 575, oldest
    first.
  \<^item> \<open>has_video\<close>, \<open>dom_src\<close>: the two evaluations of lines 415 and 428. The second
    tests the marker on element sources and player configuration, and returns the room
    data's stream address (lines 504 to 509) untested.
  \<^item> \<open>cdp_rejects\<close>: opening the protocol session or the wait of line 673 rejects.
  \<^item> \<open>json_values w\<close>: for each JSON response handled during window \<open>w\<close>, the
    string values that the walk of lines 610 to 643 meets under a media-like key (the
    test of lines 620 to 623), in the order of the walk.
  \<^item> \<open>script_page\<close>: what the script of line 683 finds in the page, or the message of
    the exception it ends with.
  \<^item> \<open>api_fetch url\<close>: the cookie read and in-page fetch of lines 758 to 782; a reply
    holds \<^verbatim>\<open>response.data.room.stream_url.flv_url\<close> and \<^verbatim>\<open>.hls_url\<close>,
    \<open>None\<close> where a step of that path is missing.
  \<^item> \<open>page_content\<close>, \<open>write_throws\<close>, \<open>screenshot_rejects\<close>: lines 803 to 807.
  \<^item> \<open>close_rejects\<close>: \<^verbatim>\<open>browser.close\<close> (line 825) rejects.
\<close>

subsection \<open>Address validation (lines 93 to 101)\<close>

definition normalize_url :: "string \<Rightarrow> error + string" where
  "normalize_url douyinUrl =
     (if \<not> str_includes douyinUrl ''douyin.com'' \<and> \<not> str_includes douyinUrl ''tiktok.com'' then
        (let u = (if \<not> str_includes douyinUrl ''http'' then ''https://'' @ douyinUrl
                  else douyinUrl)
         in if \<not> str_includes u ''/live/'' then Inl InvalidLink else Inr u)
      else Inr douyinUrl)"

subsection \<open>Passive request observation (lines 246 to 268)\<close>

text \<open>The pair is \<open>(mediaRequests, liveStreamRequests)\<close>; \<^verbatim>\<open>push\<close> appends.\<close>

definition on_request :: "string \<Rightarrow> string list \<times> string list \<Rightarrow> string list \<times> string list" where
  "on_request url buckets =
     (case buckets of (mediaRequests, liveStreamRequests) \<Rightarrow>
        if str_includes url ''.m3u8'' \<or> str_includes url ''.flv'' \<or> str_includes url ''.mp4'' \<or>
           str_includes url ''/stream/'' \<or> str_includes url ''/live/'' \<or> str_includes url ''/play/''
        then
          (if \<not> decoy url then
             (if str_includes url ''.m3u8'' \<or> str_includes url ''.flv''
              then (mediaRequests, liveStreamRequests @ [url])
              else (mediaRequests @ [url], liveStreamRequests))
           else (mediaRequests, liveStreamRequests))
        else (mediaRequests, liveStreamRequests))"

text \<open>The outer test of lines 252 to 258, and the inner one of line 261 (which is
  \<open>has_stream_ext\<close> below), by name.\<close>

definition media_like :: "string \<Rightarrow> bool" where
  "media_like url =
     (str_includes url ''.m3u8'' \<or> str_includes url ''.flv'' \<or> str_includes url ''.mp4'' \<or>
      str_includes url ''/stream/'' \<or> str_includes url ''/live/'' \<or> str_includes url ''/play/'')"

definition observe :: "string list \<Rightarrow> string list \<times> string list" where
  "observe urls = foldl (\<lambda>buckets url. on_request url buckets) ([], []) urls"

definition mediaRequests :: "browser \<Rightarrow> string list" where
  "mediaRequests b = fst (observe (request_urls b))"

definition liveStreamRequests :: "browser \<Rightarrow> string list" where
  "liveStreamRequests b = snd (observe (request_urls b))"

subsection \<open>DOM extraction (lines 408 to 568)\<close>

text \<open>\<^verbatim>\<open>streamUrl\<close> starts as \<^verbatim>\<open>null\<close>; an exception of either evaluation is
  caught at line 566 and leaves it as it is.\<close>

definition dom_extraction :: "browser \<Rightarrow> string option" where
  "dom_extraction b =
     (case has_video b of
        Inl e \<Rightarrow> None
      | Inr hasVideo \<Rightarrow>
          if hasVideo then (case dom_src b of Inl e \<Rightarrow> None | Inr src \<Rightarrow> src)
          else None)"

subsection \<open>The JSON response handler (lines 592 to 669)\<close>

text \<open>
  Lines 648 to 654 drop the marked URLs and sort the rest, those with a streaming
  extension first; the sort is stable, so each class keeps its order. A state of the
  attempt is the pair of \<^verbatim>\<open>streamUrl\<close> and the effects so far.
\<close>

definition has_stream_ext :: "string \<Rightarrow> bool" where
  "has_stream_ext url = (str_includes url ''.m3u8'' \<or> str_includes url ''.flv'')"

definition sort_by_score :: "string list \<Rightarrow> string list" where
  "sort_by_score urls = filter has_stream_ext urls @ filter (\<lambda>u. \<not> has_stream_ext u) urls"

text \<open>Lines 626 to 634: a value is kept when it looks like a URL and is unmarked, and
  a kept value that starts with \<^verbatim>\<open>//\<close> gets the scheme.\<close>

definition url_like :: "string \<Rightarrow> bool" where
  "url_like v =
     (str_includes v ''http'' \<or> prefix ''//'' v \<or>
      str_includes v ''.m3u8'' \<or> str_includes v ''.flv'')"

definition findMediaUrls :: "string list \<Rightarrow> string list" where
  "findMediaUrls vals =
     map (\<lambda>v. if prefix ''//'' v then ''https:'' @ v else v)
       (filter (\<lambda>v. url_like v \<and> \<not> decoy v) vals)"

text \<open>The URL that one response puts into \<^verbatim>\<open>streamUrl\<close> (lines 645 to 659), if
  any.\<close>

definition response_url :: "string list \<Rightarrow> string option" where
  "response_url vals =
     (case sort_by_score (filter (\<lambda>u. \<not> decoy u) (findMediaUrls vals)) of
        [] \<Rightarrow> None
      | u # rest \<Rightarrow> Some u)"

definition on_response :: "string list \<Rightarrow> string option \<times> effect list \<Rightarrow> string option \<times> effect list" where
  "on_response vals st =
     (case response_url vals of
        None \<Rightarrow> st
      | Some u \<Rightarrow> (Some u, snd st @ [FoundInJson u]))"

definition cdp_window :: "browser \<Rightarrow> window \<Rightarrow> bool \<Rightarrow> string option \<times> effect list \<Rightarrow> string option \<times> effect list" where
  "cdp_window b w installed st =
     (if installed then foldl (\<lambda>st vals. on_response vals st) st (json_values b w)
      else st)"

text \<open>The URL that the responses of a window leave in \<^verbatim>\<open>streamUrl\<close>, if any: that of
  the last response that has one.\<close>

definition json_find :: "browser \<Rightarrow> window \<Rightarrow> string option" where
  "json_find b w =
     foldl (\<lambda>found vals. case response_url vals of None \<Rightarrow> found | Some u \<Rightarrow> Some u)
       None (json_values b w)"

subsection \<open>Network observations, then response analysis (lines 570 to 675)\<close>

text \<open>The result also tells whether the response handler was installed.\<close>

definition network_phase :: "browser \<Rightarrow> string option \<Rightarrow> effect list \<Rightarrow> effect list \<times> (error + string option \<times> bool)" where
  "network_phase b streamUrl log =
     (if usable streamUrl then (log @ [FoundInDom], Inr (streamUrl, False))
      else if liveStreamRequests b \<noteq> [] then
        (log @ [FoundLiveRequest (last (liveStreamRequests b))],
         Inr (Some (last (liveStreamRequests b)), False))
      else if mediaRequests b \<noteq> [] then
        (log @ [FoundMediaRequest (last (mediaRequests b))],
         Inr (Some (last (mediaRequests b)), False))
      else
        (case cdp_rejects b of
           Some m \<Rightarrow> (log @ [AnalyzeNetwork], Inl (DriverError m))
         | None \<Rightarrow>
             (snd (cdp_window b DuringWait True (streamUrl, log @ [AnalyzeNetwork])),
              Inr (fst (cdp_window b DuringWait True (streamUrl, log @ [AnalyzeNetwork])),
                   True))))"

subsection \<open>The custom script (lines 677 to 744)\<close>

text \<open>\<^verbatim>\<open>s.split('/')\<close> and \<^verbatim>\<open>parts.join('/')\<close>.\<close>

fun split_on :: "char \<Rightarrow> string \<Rightarrow> string list" where
  "split_on c [] = [[]]"
| "split_on c (x # xs) =
     (if x = c then [] # split_on c xs
      else (case split_on c xs of
              [] \<Rightarrow> [[x]]
            | p # ps \<Rightarrow> (x # p) # ps))"

fun join_with :: "char \<Rightarrow> string list \<Rightarrow> string" where
  "join_with c [] = []"
| "join_with c [p] = p"
| "join_with c (p # q # ps) = p @ c # join_with c (q # ps)"

text \<open>
  The script in the page (lines 683 to 735): the first frame video whose source is set and
  unmarked; else the newest performance entry that looks like a stream and is unmarked;
  else, when there is artwork whose address has more than five parts, the first five
  parts with \<^verbatim>\<open>/stream.m3u8\<close> appended, untested; else \<^verbatim>\<open>null\<close>.
\<close>

definition stream_entries :: "string list \<Rightarrow> string list" where
  "stream_entries names =
     filter (\<lambda>n. n \<noteq> [] \<and>
                 (str_includes n ''.m3u8'' \<or> str_includes n ''.flv'' \<or>
                  str_includes n ''/live/'' \<or> str_includes n ''/stream/'') \<and>
                 \<not> decoy n) names"

definition from_artwork :: "string option \<Rightarrow> string option" where
  "from_artwork artwork =
     (case artwork of
        None \<Rightarrow> None
      | Some artworkUrl \<Rightarrow>
          if length (split_on CHR ''/'' artworkUrl) > 5
          then Some (join_with CHR ''/'' (take 5 (split_on CHR ''/'' artworkUrl)) @ ''/stream.m3u8'')
          else None)"

definition custom_script :: "script_facts \<Rightarrow> string option" where
  "custom_script p =
     (case find usable (frame_video_srcs p) of
        Some src \<Rightarrow> src
      | None \<Rightarrow>
          (case performance_entries p of
             None \<Rightarrow> from_artwork (artwork_src p)
           | Some names \<Rightarrow>
               if stream_entries names \<noteq> [] then Some (last (stream_entries names))
               else from_artwork (artwork_src p)))"

text \<open>Line 737 takes the script's URL only when it is non-empty and unmarked; an
  exception of the evaluation is caught at line 741.\<close>

definition script_yield :: "browser \<Rightarrow> string option" where
  "script_yield b =
     (case script_page b of
        Inl e \<Rightarrow> None
      | Inr p \<Rightarrow> if usable (custom_script p) then custom_script p else None)"

definition take_script :: "browser \<Rightarrow> string option \<times> effect list \<Rightarrow> string option \<times> effect list" where
  "take_script b st =
     (case script_yield b of
        None \<Rightarrow> st
      | Some u \<Rightarrow> (Some u, snd st @ [FoundByScript u]))"

definition script_phase :: "browser \<Rightarrow> bool \<Rightarrow> string option \<times> effect list \<Rightarrow> string option \<times> effect list" where
  "script_phase b installed st =
     (if \<not> usable (fst st) then
        take_script b (cdp_window b DuringScript installed (fst st, snd st @ [TryFurther]))
      else st)"

subsection \<open>The direct query (lines 746 to 798)\<close>

text \<open>\<^verbatim>\<open>douyinUrl.match(/\/live\/([^/?]+)/)\<close>: the leftmost \<^verbatim>\<open>/live/\<close> followed by at
  least one character other than \<^verbatim>\<open>/\<close> and \<^verbatim>\<open>?\<close>; the group is the longest such
  run.\<close>

fun roomIdMatch :: "string \<Rightarrow> string option" where
  "roomIdMatch [] = None"
| "roomIdMatch (c # cs) =
     (if prefix ''/live/'' (c # cs) \<and>
         takeWhile (\<lambda>x. x \<noteq> CHR ''/'' \<and> x \<noteq> CHR ''?'') (drop 6 (c # cs)) \<noteq> []
      then Some (takeWhile (\<lambda>x. x \<noteq> CHR ''/'' \<and> x \<noteq> CHR ''?'') (drop 6 (c # cs)))
      else roomIdMatch cs)"

definition apiUrl :: "string \<Rightarrow> string" where
  "apiUrl roomId =
     ''https://webcast.amemv.com/webcast/room/reflow/info/?live_id='' @ roomId @
     ''&room_id='' @ roomId"

text \<open>Lines 784 to 792 take \<^verbatim>\<open>flv_url\<close> when it is set, else \<^verbatim>\<open>hls_url\<close> when it
  is set, without testing the marker; an exception of the query is caught at line 795.\<close>

definition take_api :: "browser \<Rightarrow> string \<Rightarrow> string option \<times> effect list \<Rightarrow> string option \<times> effect list" where
  "take_api b roomId st =
     (case api_fetch b (apiUrl roomId) of
        Inl e \<Rightarrow> st
      | Inr response \<Rightarrow>
          if truthy (flv_url response) then
            (flv_url response, snd st @ [FoundFlv (the (flv_url response))])
          else if truthy (hls_url response) then
            (hls_url response, snd st @ [FoundHls (the (hls_url response))])
          else st)"

definition api_phase :: "browser \<Rightarrow> bool \<Rightarrow> string \<Rightarrow> string option \<times> effect list \<Rightarrow> string option \<times> effect list" where
  "api_phase b installed douyinUrl st =
     (if \<not> usable (fst st) then
        (case roomIdMatch douyinUrl of
           None \<Rightarrow> (fst st, snd st @ [TryApi])
         | Some roomId \<Rightarrow>
             take_api b roomId (cdp_window b DuringApi installed (fst st, snd st @ [TryApi])))
      else st)"

text \<open>The URL the query assigns for an address, if any.\<close>

definition api_yield :: "browser \<Rightarrow> string \<Rightarrow> string option" where
  "api_yield b douyinUrl =
     (case roomIdMatch douyinUrl of
        None \<Rightarrow> None
      | Some roomId \<Rightarrow>
          (case api_fetch b (apiUrl roomId) of
             Inl e \<Rightarrow> None
           | Inr response \<Rightarrow>
               if truthy (flv_url response) then flv_url response
               else if truthy (hls_url response) then hls_url response
               else None))"

subsection \<open>Diagnostics and the result (lines 800 to 820)\<close>

text \<open>Lines 811 to 816: a marked URL is returned with a warning, anything else is an
  error.\<close>

definition verdict :: "string option \<times> effect list \<Rightarrow> effect list \<times> (error + string)" where
  "verdict st =
     (case fst st of
        None \<Rightarrow> (snd st, Inl NoStreamUrl)
      | Some u \<Rightarrow>
          if u \<noteq> [] \<and> decoy u then (snd st @ [WarnTestVideoOnly], Inr u)
          else (snd st, Inl NoStreamUrl))"

definition log_effect :: "effect \<Rightarrow> string option \<times> effect list \<Rightarrow> string option \<times> effect list" where
  "log_effect e st = (fst st, snd st @ [e])"

text \<open>Lines 803 to 808: responses handled while the page content is awaited come before
  the HTML file, those handled while the screenshot is awaited come after it.\<close>

definition after_content :: "browser \<Rightarrow> bool \<Rightarrow> string option \<times> effect list \<Rightarrow> string option \<times> effect list" where
  "after_content b installed st = cdp_window b DuringContent installed st"

definition after_screenshot :: "browser \<Rightarrow> bool \<Rightarrow> string \<Rightarrow> string option \<times> effect list \<Rightarrow> string option \<times> effect list" where
  "after_screenshot b installed pageContent st =
     cdp_window b DuringScreenshot installed
       (log_effect (WriteHtml pageContent) (after_content b installed st))"

definition diagnostics :: "browser \<Rightarrow> bool \<Rightarrow> string option \<times> effect list \<Rightarrow> effect list \<times> (error + string)" where
  "diagnostics b installed st =
     (case page_content b of
        Inl m \<Rightarrow> (snd (after_content b installed st), Inl (DriverError m))
      | Inr pageContent \<Rightarrow>
          (case write_throws b of
             Some m \<Rightarrow> (snd (after_content b installed st), Inl (DriverError m))
           | None \<Rightarrow>
               (case screenshot_rejects b of
                  Some m \<Rightarrow>
                    (snd (after_screenshot b installed pageContent st), Inl (DriverError m))
                | None \<Rightarrow>
                    verdict (log_effect Screenshot
                              (after_screenshot b installed pageContent st)))))"

definition finish :: "browser \<Rightarrow> bool \<Rightarrow> string option \<times> effect list \<Rightarrow> effect list \<times> (error + string)" where
  "finish b installed st =
     (case fst st of
        None \<Rightarrow> diagnostics b installed st
      | Some u \<Rightarrow>
          if usable (Some u) then (snd st @ [Extracted u], Inr u)
          else diagnostics b installed st)"

subsection \<open>The body of the \<^verbatim>\<open>try\<close> block and the whole function\<close>

definition discover :: "browser \<Rightarrow> string \<Rightarrow> effect list \<Rightarrow> effect list \<times> (error + string)" where
  "discover b douyinUrl log =
     (case page_rejects b of
        Some m \<Rightarrow> (log, Inl (DriverError m))
      | None \<Rightarrow>
          (case network_phase b (dom_extraction b) log of
             (log1, Inl e) \<Rightarrow> (log1, Inl e)
           | (log1, Inr (s, installed)) \<Rightarrow>
               finish b installed
                 (api_phase b installed douyinUrl
                   (script_phase b installed (s, log1)))))"

text \<open>
  The browser is launched before the \<^verbatim>\<open>try\<close>; the \<^verbatim>\<open>catch\<close> rethrows; the
  \<^verbatim>\<open>finally\<close> awaits \<^verbatim>\<open>browser.close()\<close>, whose own rejection replaces the
  outcome of the body. \<open>Close\<close> records the call.
\<close>

definition extractLiveStreamUrl :: "browser \<Rightarrow> string \<Rightarrow> effect list \<times> (error + string)" where
  "extractLiveStreamUrl b douyinUrl =
     (case normalize_url douyinUrl of
        Inl e \<Rightarrow> ([], Inl e)
      | Inr u \<Rightarrow>
          (case launch_rejects b of
             Some m \<Rightarrow> ([], Inl (DriverError m))
           | None \<Rightarrow>
               (case discover b u [Launch] of
                  (log, r) \<Rightarrow>
                    (case close_rejects b of
                       Some m \<Rightarrow> (log @ [Close], Inl (DriverError m))
                     | None \<Rightarrow> (log @ [Close], r)))))"

section \<open>Transcode sessions\<close>

subsection \<open>The server's state\<close>

text \<open>
  \<^verbatim>\<open>activeLiveStreams\<close> is a \<^verbatim>\<open>Map\<close> from session id to the ffmpeg command object
  that \<^verbatim>\<open>processLiveStream\<close> built. A command object is named by its creation number.
  The trace lists what the session code did to the file system, to the processes and to
  the table, in order.
\<close>

datatype action =
    Mkdir
  | Run nat string string
  | Kill nat
  | TableSet string nat
  | TableDelete string

record server =
  ffmpegAvailable :: bool
  port :: string
  activeLiveStreams :: "string \<rightharpoonup> nat"
  commands :: nat
  streams_dir :: bool
  trace :: "action list"

text \<open>
  \<^item> \<open>ffmpegAvailable\<close>: the flag set once at start-up (lines 52 to 66).
  \<^item> \<open>port\<close>: \<^verbatim>\<open>PORT\<close> (line 1057), as it prints.
  \<^item> \<open>commands\<close>: how many command objects exist; the next one gets this number.
  \<^item> \<open>streams_dir\<close>: whether \<^verbatim>\<open>public/streams\<close> exists.
  \<^item> \<open>Run c url path\<close>: command \<open>c\<close> was built for \<open>url\<close> with output \<open>path\<close> and
    started; \<open>Kill c\<close>: \<^verbatim>\<open>kill('SIGTERM')\<close> was called on command \<open>c\<close>.
\<close>

record stream_result =
  originalUrl :: string
  transcodedUrl :: "string option"
  result_ffmpegAvailable :: bool
  result_error :: "string option"

text \<open>What the host does to one call: \<^verbatim>\<open>fs.mkdirSync\<close> may throw, and so may building
  or starting the command (lines 863 to 926).\<close>

record host =
  mkdir_throws :: "string option"
  ffmpeg_throws :: "string option"

subsection \<open>\<^verbatim>\<open>cleanupStream\<close> (lines 951 to 958)\<close>

definition cleanupStream :: "string \<Rightarrow> server \<Rightarrow> server" where
  "cleanupStream sessionId sv =
     (case activeLiveStreams sv sessionId of
        Some proc \<Rightarrow>
          sv\<lparr>activeLiveStreams := (activeLiveStreams sv)(sessionId := None),
             trace := trace sv @ [Kill proc, TableDelete sessionId]\<rparr>
      | None \<Rightarrow> sv)"

subsection \<open>\<^verbatim>\<open>processLiveStream\<close> (lines 835 to 945)\<close>

definition outputUrl :: "string \<Rightarrow> string" where
  "outputUrl sessionId = ''/streams/'' @ sessionId @ ''.mp4''"

text \<open>
  \<^verbatim>\<open>path.join\<close> (line 859) joins its arguments with \<^verbatim>\<open>/\<close> and normalises the
  result: empty and \<^verbatim>\<open>.\<close> segments are dropped, and \<^verbatim>\<open>..\<close> removes the segment
  before it. The path is written relative to \<^verbatim>\<open>__dirname\<close>, the server's directory
  (line 853); a \<^verbatim>\<open>..\<close> left at the front steps out of that directory, and stands for
  its parent as long as the directory has one.
\<close>

definition path_step :: "string list \<Rightarrow> string \<Rightarrow> string list" where
  "path_step segs seg =
     (if seg = [] \<or> seg = ''.'' then segs
      else if seg = ''..'' then
        (if segs \<noteq> [] \<and> last segs \<noteq> ''..'' then butlast segs else segs @ [seg])
      else segs @ [seg])"

definition path_normalize :: "string \<Rightarrow> string" where
  "path_normalize p = join_with CHR ''/'' (foldl path_step [] (split_on CHR ''/'' p))"

definition outputPath :: "string \<Rightarrow> string" where
  "outputPath sessionId = path_normalize (''public/streams/'' @ sessionId @ ''.mp4'')"

text \<open>Lines 853 to 856: the directory is created when it does not exist.\<close>

definition ensure_dir :: "host \<Rightarrow> server \<Rightarrow> string + server" where
  "ensure_dir h sv =
     (if \<not> streams_dir sv then
        (case mkdir_throws h of
           Some m \<Rightarrow> Inl m
         | None \<Rightarrow> Inr (sv\<lparr>streams_dir := True, trace := trace sv @ [Mkdir]\<rparr>))
      else Inr sv)"

text \<open>The body of the \<^verbatim>\<open>try\<close> block; \<open>Inl message\<close> is an exception thrown in it.\<close>

definition transcode :: "host \<Rightarrow> string \<Rightarrow> string \<Rightarrow> server \<Rightarrow> server \<times> (string + stream_result)" where
  "transcode h streamUrl sessionId sv =
     (case ensure_dir h sv of
        Inl m \<Rightarrow> (sv, Inl m)
      | Inr sv1 \<Rightarrow>
          (case ffmpeg_throws h of
             Some m \<Rightarrow> (sv1, Inl m)
           | None \<Rightarrow>
               (sv1\<lparr>commands := Suc (commands sv1),
                    activeLiveStreams := (activeLiveStreams sv1)(sessionId \<mapsto> commands sv1),
                    trace := trace sv1 @
                      [Run (commands sv1) streamUrl (outputPath sessionId),
                       TableSet sessionId (commands sv1)]\<rparr>,
                Inr \<lparr>originalUrl = streamUrl,
                     transcodedUrl = Some (''http://localhost:'' @ port sv1 @ outputUrl sessionId),
                     result_ffmpegAvailable = True,
                     result_error = None\<rparr>)))"

definition processLiveStream :: "host \<Rightarrow> string \<Rightarrow> string \<Rightarrow> server \<Rightarrow> server \<times> (error + stream_result)" where
  "processLiveStream h streamUrl sessionId sv =
     (if \<not> ffmpegAvailable sv then
        (sv, Inr \<lparr>originalUrl = streamUrl, transcodedUrl = None,
                  result_ffmpegAvailable = False, result_error = None\<rparr>)
      else
        (case transcode h streamUrl sessionId sv of
           (sv', Inr r) \<Rightarrow> (sv', Inr r)
         | (sv', Inl m) \<Rightarrow>
             (sv', Inr \<lparr>originalUrl = streamUrl, transcodedUrl = None,
                        result_ffmpegAvailable = False, result_error = Some m\<rparr>)))"

subsection \<open>The REST handlers (lines 961 to 1014)\<close>

text \<open>\<^verbatim>\<open>Date.now().toString()\<close>: the clock's milliseconds in decimal.\<close>

fun toString :: "nat \<Rightarrow> string" where
  "toString n =
     (if n < 10 then [''0123456789'' ! n]
      else toString (n div 10) @ [''0123456789'' ! (n mod 10)])"

declare toString.simps [simp del]

datatype response =
    Started string stream_result
  | BadRequest
  | ServerError
  | Streaming
  | Stopped
  | NotFound

text \<open>
  \<open>Started sessionId r\<close> is the reply of line 977; \<open>BadRequest\<close> the 400 of line 965;
  \<open>ServerError\<close> the 500 of line 988; \<open>Streaming\<close> and \<open>Stopped\<close> the replies of lines
  999 and 1010; \<open>NotFound\<close> the 404 of lines 996 and 1012.

  The start handler answers 400 when the body's \<^verbatim>\<open>url\<close> is missing or empty, and
  reads the clock before it awaits the discovery (line 968).
\<close>

definition start_stream :: "nat \<Rightarrow> string option \<Rightarrow> browser \<Rightarrow> host \<Rightarrow> server \<Rightarrow> server \<times> response" where
  "start_stream now url b h sv =
     (case url of
        None \<Rightarrow> (sv, BadRequest)
      | Some u \<Rightarrow>
          if u = [] then (sv, BadRequest)
          else
            (case snd (extractLiveStreamUrl b u) of
               Inl e \<Rightarrow> (sv, ServerError)
             | Inr streamUrl \<Rightarrow>
                 (case processLiveStream h streamUrl (toString now) sv of
                    (sv', Inr r) \<Rightarrow> (sv', Started (toString now) r)
                  | (sv', Inl e) \<Rightarrow> (sv', ServerError))))"

definition stream_status :: "string \<Rightarrow> server \<Rightarrow> response" where
  "stream_status sessionId sv =
     (if activeLiveStreams sv sessionId = None then NotFound else Streaming)"

definition stop_stream :: "string \<Rightarrow> server \<Rightarrow> server \<times> response" where
  "stop_stream sessionId sv =
     (if activeLiveStreams sv sessionId \<noteq> None then (cleanupStream sessionId sv, Stopped)
      else (sv, NotFound))"

subsection \<open>Stop requests and process callbacks, in the order they are handled\<close>

text \<open>
  The \<^verbatim>\<open>error\<close> and \<^verbatim>\<open>end\<close> callbacks registered at lines 878 and 920 close over
  the session id and call \<^verbatim>\<open>cleanupStream\<close>. Handlers and callbacks run to completion
  on one thread, so requests made at the same time are handled one after the other.
\<close>

datatype event = StopRequest string | ErrorCallback string | EndCallback string

fun session_of :: "event \<Rightarrow> string" where
  "session_of (StopRequest sessionId) = sessionId"
| "session_of (ErrorCallback sessionId) = sessionId"
| "session_of (EndCallback sessionId) = sessionId"

fun handle :: "event \<Rightarrow> server \<Rightarrow> server" where
  "handle (StopRequest sessionId) sv = fst (stop_stream sessionId sv)"
| "handle (ErrorCallback sessionId) sv = cleanupStream sessionId sv"
| "handle (EndCallback sessionId) sv = cleanupStream sessionId sv"

fun run_events :: "event list \<Rightarrow> server \<Rightarrow> server" where
  "run_events [] sv = sv"
| "run_events (e # es) sv = run_events es (handle e sv)"

section \<open>Conditions on a page\<close>



section \<open>Example pages and servers\<close>

text \<open>A page on which no strategy finds anything and no call fails, and variants of it:
  one exposing a video element, two with request traffic only.\<close>

definition idle_browser :: browser where
  "idle_browser =
     \<lparr>launch_rejects = None, page_rejects = None, request_urls = [],
      has_video = Inr False, dom_src = Inr None, cdp_rejects = None,
      json_values = (\<lambda>w. []),
      script_page = Inr \<lparr>frame_video_srcs = [], performance_entries = Some [],
                         artwork_src = None\<rparr>,
      api_fetch = (\<lambda>u. Inr \<lparr>flv_url = None, hls_url = None\<rparr>),
      page_content = Inr ''<html/>'', write_throws = None,
      screenshot_rejects = None, close_rejects = None\<rparr>"

definition dom_browser :: browser where
  "dom_browser = idle_browser\<lparr>has_video := Inr True,
      dom_src := Inr (Some ''https://a.example.com/555/play.m3u8'')\<rparr>"

definition net_browser :: browser where
  "net_browser = idle_browser\<lparr>request_urls :=
      [''//c/1.flv'', ''//c/2.mp4'', ''//c/douyin-pc-web/uuu_3.flv'', ''//c/4.m3u8'', ''//c/5.js'']\<rparr>"

definition media_browser :: browser where
  "media_browser = idle_browser\<lparr>request_urls := [''//c/live/1'', ''//c/2.mp4'', ''//c/3.css'']\<rparr>"

text \<open>A page whose only video source is the placeholder, and a page on which the
  placeholder shows up in a request, in a JSON response and in the script's result, and
  nowhere else.\<close>

definition placeholder_browser :: browser where
  "placeholder_browser = idle_browser\<lparr>has_video := Inr True,
      dom_src := Inr (Some ''//c/douyin-pc-web/uuu_1.mp4'')\<rparr>"


text \<open>A page whose video source is the placeholder and whose query answers with another
  placeholder address; a page with a readable frame video; a page whose JSON responses
  during the wait hold a marked and two unmarked addresses.\<close>

definition query_browser :: browser where
  "query_browser = placeholder_browser\<lparr>
      api_fetch := (\<lambda>u. Inr \<lparr>flv_url = Some ''//c/douyin-pc-web/uuu_2.flv'', hls_url = None\<rparr>)\<rparr>"



text \<open>A server with two running sessions, and hosts on which nothing fails or the
  directory cannot be created.\<close>

definition demo_server :: server where
  "demo_server =
     \<lparr>ffmpegAvailable = True, port = ''3001'',
      activeLiveStreams = [''17'' \<mapsto> 0, ''18'' \<mapsto> 1],
      commands = 2, streams_dir = True, trace = []\<rparr>"

definition ok_host :: host where
  "ok_host = \<lparr>mkdir_throws = None, ffmpeg_throws = None\<rparr>"

definition readonly_host :: host where
  "readonly_host = \<lparr>mkdir_throws = Some ''EACCES'', ffmpeg_throws = None\<rparr>"

text \<open>Two start requests that read the clock value 42, the second handled on the server
  the first one left.\<close>

definition first_start :: "server \<times> response" where
  "first_start =
     start_stream 42 (Some ''live.example.com/live/555'') dom_browser ok_host demo_server"

definition second_start :: "server \<times> response" where
  "second_start =
     start_stream 42 (Some ''live.example.com/live/555'') net_browser ok_host (fst first_start)"

lemmas discovery_defs =
  extractLiveStreamUrl_def normalize_url_def discover_def dom_extraction_def
  network_phase_def liveStreamRequests_def mediaRequests_def observe_def on_request_def
  cdp_window_def url_like_def findMediaUrls_def response_url_def on_response_def
  sort_by_score_def has_stream_ext_def json_find_def
  script_phase_def stream_entries_def from_artwork_def
  custom_script_def script_yield_def take_script_def api_phase_def take_api_def apiUrl_def
  api_yield_def
  finish_def log_effect_def after_content_def after_screenshot_def diagnostics_def
  verdict_def usable_def truthy_def decoy_def

section \<open>Substring tests\<close>

lemma str_includes_sublist: "str_includes s sub = sublist sub s"
  by (induction s) (auto simp: sublist_Cons_right)

lemma str_includes_nonempty: "str_includes s (c # cs) \<Longrightarrow> s \<noteq> []"
  by (cases s) auto

lemma has_stream_ext_nonempty: "has_stream_ext u \<Longrightarrow> u \<noteq> []"
  by (auto simp: has_stream_ext_def dest: str_includes_nonempty)

lemma media_like_nonempty: "media_like u \<Longrightarrow> u \<noteq> []"
  by (auto simp: media_like_def dest: str_includes_nonempty)

section \<open>Session clean-up\<close>

lemma cleanupStream_present:
  "activeLiveStreams sv sid = Some p \<Longrightarrow>
   cleanupStream sid sv =
     sv\<lparr>activeLiveStreams := (activeLiveStreams sv)(sid := None),
        trace := trace sv @ [Kill p, TableDelete sid]\<rparr>"
  by (simp add: cleanupStream_def)

text \<open>A stop request and both callbacks do the same thing to the server.\<close>

lemma handle_cleanup: "handle e sv = cleanupStream (session_of e) sv"
  by (cases e) (auto simp: stop_stream_def cleanupStream_def split: option.splits)

text \<open>Once the entry is gone and the table no longer holds the process, no later
  event signals the process or deletes the entry again.\<close>

lemma run_events_absent:
  "activeLiveStreams sv sid = None \<Longrightarrow> p \<notin> ran (activeLiveStreams sv) \<Longrightarrow>
   activeLiveStreams (run_events evs sv) sid = None \<and>
   count_list (trace (run_events evs sv)) (Kill p) = count_list (trace sv) (Kill p) \<and>
   count_list (trace (run_events evs sv)) (TableDelete sid) =
     count_list (trace sv) (TableDelete sid)"
proof (induction evs arbitrary: sv)
  case Nil
  then show ?case by simp
next
  case (Cons e es)
  let ?sv = "handle e sv"
  have a: "activeLiveStreams ?sv sid = None"
    using Cons.prems(1) by (auto simp: handle_cleanup cleanupStream_def split: option.splits)
  have r: "p \<notin> ran (activeLiveStreams ?sv)"
    using Cons.prems(2)
    by (auto simp: handle_cleanup cleanupStream_def ran_def split: option.splits if_splits)
  have k: "count_list (trace ?sv) (Kill p) = count_list (trace sv) (Kill p)"
    using Cons.prems(2)
    by (auto simp: handle_cleanup cleanupStream_def ran_def split: option.splits)
  have d: "count_list (trace ?sv) (TableDelete sid) = count_list (trace sv) (TableDelete sid)"
    using Cons.prems(1) by (auto simp: handle_cleanup cleanupStream_def split: option.splits)
  show ?case using Cons.IH [OF a r] k d by simp
qed

text \<open>
  Claim C1. Let session \<open>sid\<close> be registered with process \<open>p\<close>, and \<open>p\<close> under no other
  id. Then any sequence of stop requests and error/end callbacks, for this and for other
  sessions, in which at least one event is for \<open>sid\<close>, calls \<^verbatim>\<open>kill('SIGTERM')\<close> on
  \<open>p\<close> exactly once and deletes the entry of \<open>sid\<close> exactly once, and leaves the table
  without an entry for \<open>sid\<close>.
\<close>

theorem cleanup_exactly_once:
  assumes "activeLiveStreams sv sid = Some p"
    and "p \<notin> ran ((activeLiveStreams sv)(sid := None))"
    and "sid \<in> set (map session_of evs)"
  shows "count_list (trace (run_events evs sv)) (Kill p) = count_list (trace sv) (Kill p) + 1 \<and>
         count_list (trace (run_events evs sv)) (TableDelete sid) =
           count_list (trace sv) (TableDelete sid) + 1 \<and>
         activeLiveStreams (run_events evs sv) sid = None"
  using assms
proof (induction evs arbitrary: sv)
  case Nil
  then show ?case by simp
next
  case (Cons e es)
  let ?sv = "handle e sv"
  show ?case
  proof (cases "session_of e = sid")
    case True
    have eq: "?sv = sv\<lparr>activeLiveStreams := (activeLiveStreams sv)(sid := None),
        trace := trace sv @ [Kill p, TableDelete sid]\<rparr>"
      using True Cons.prems(1) by (simp add: handle_cleanup cleanupStream_present)
    have a: "activeLiveStreams ?sv sid = None" by (simp add: eq)
    have r: "p \<notin> ran (activeLiveStreams ?sv)"
      unfolding eq using Cons.prems(2) by (auto simp: ran_def)
    show ?thesis using run_events_absent [OF a r, of es] by (simp add: eq)
  next
    case False
    have a: "activeLiveStreams ?sv sid = Some p"
      using False Cons.prems(1)
      by (auto simp: handle_cleanup cleanupStream_def split: option.splits)
    have r: "p \<notin> ran ((activeLiveStreams ?sv)(sid := None))"
      using False Cons.prems(2)
      by (auto simp: handle_cleanup cleanupStream_def ran_def split: option.splits if_splits)
    have k: "count_list (trace ?sv) (Kill p) = count_list (trace sv) (Kill p)"
      using False Cons.prems(2)
      by (auto simp: handle_cleanup cleanupStream_def ran_def split: option.splits if_splits)
    have d: "count_list (trace ?sv) (TableDelete sid) = count_list (trace sv) (TableDelete sid)"
      using False by (auto simp: handle_cleanup cleanupStream_def split: option.splits)
    have m: "sid \<in> set (map session_of es)" using False Cons.prems(3) by auto
    show ?thesis using Cons.IH [OF a r m] k d by simp
  qed
qed

text \<open>An instance: two stop requests for session 17 made together, then the process's
  own error and end callbacks, with a stop of session 18 in between.\<close>

theorem cleanup_exactly_once_witness:
  "activeLiveStreams demo_server ''17'' = Some 0 \<and>
   0 \<notin> ran ((activeLiveStreams demo_server)(''17'' := None)) \<and>
   count_list (trace (run_events
      [StopRequest ''17'', StopRequest ''17'', StopRequest ''18'', ErrorCallback ''17'',
       EndCallback ''17''] demo_server)) (Kill 0) = 1 \<and>
   count_list (trace (run_events
      [StopRequest ''17'', StopRequest ''17'', StopRequest ''18'', ErrorCallback ''17'',
       EndCallback ''17''] demo_server)) (TableDelete ''17'') = 1 \<and>
   activeLiveStreams (run_events
      [StopRequest ''17'', StopRequest ''17'', StopRequest ''18'', ErrorCallback ''17'',
       EndCallback ''17''] demo_server) ''17'' = None"
proof -
  have a: "activeLiveStreams demo_server ''17'' = Some 0"
    by (simp add: demo_server_def)
  have r: "0 \<notin> ran ((activeLiveStreams demo_server)(''17'' := None))"
    by (auto simp: demo_server_def ran_def split: if_splits)
  have m: "''17'' \<in> set (map session_of
      [StopRequest ''17'', StopRequest ''17'', StopRequest ''18'', ErrorCallback ''17'',
       EndCallback ''17''])"
    by simp
  have t: "trace demo_server = []" by (simp add: demo_server_def)
  show ?thesis using cleanup_exactly_once [OF a r m] a r by (simp add: t)
qed

text \<open>
  Claim C6. With an entry for \<open>sid\<close> present, the stop handler calls
  \<^verbatim>\<open>kill('SIGTERM')\<close> on its process, deletes the entry and answers success; called
  again on the resulting server it answers 404 and changes nothing. The handler has no
  failing branch.
\<close>

theorem stop_is_idempotent:
  assumes "activeLiveStreams sv sid = Some p"
  shows "stop_stream sid sv =
           (sv\<lparr>activeLiveStreams := (activeLiveStreams sv)(sid := None),
               trace := trace sv @ [Kill p, TableDelete sid]\<rparr>, Stopped) \<and>
         activeLiveStreams (fst (stop_stream sid sv)) sid = None \<and>
         stop_stream sid (fst (stop_stream sid sv)) = (fst (stop_stream sid sv), NotFound)"
  using assms by (simp add: stop_stream_def cleanupStream_def)

theorem stop_is_idempotent_witness:
  "activeLiveStreams demo_server ''18'' = Some 1 \<and>
   snd (stop_stream ''18'' demo_server) = Stopped \<and>
   trace (fst (stop_stream ''18'' demo_server)) = [Kill 1, TableDelete ''18''] \<and>
   activeLiveStreams (fst (stop_stream ''18'' demo_server)) ''18'' = None \<and>
   stop_stream ''18'' (fst (stop_stream ''18'' demo_server)) =
     (fst (stop_stream ''18'' demo_server), NotFound)"
proof -
  have a: "activeLiveStreams demo_server ''18'' = Some 1"
    by (simp add: demo_server_def)
  have t: "trace demo_server = []" by (simp add: demo_server_def)
  show ?thesis using stop_is_idempotent [OF a] a by (auto simp: t)
qed

section \<open>Starting a transcode\<close>

text \<open>
  Claim C7. When the availability flag is false, \<^verbatim>\<open>processLiveStream\<close> returns the
  input URL as \<open>originalUrl\<close> with no transcoded URL, and the server is left exactly as it
  was: no directory is created, no process is started and no table entry is added.
\<close>

theorem passthrough_without_engine:
  "\<not> ffmpegAvailable sv \<Longrightarrow>
   processLiveStream h streamUrl sessionId sv =
     (sv, Inr \<lparr>originalUrl = streamUrl, transcodedUrl = None,
               result_ffmpegAvailable = False, result_error = None\<rparr>)"
  by (simp add: processLiveStream_def)

theorem passthrough_without_engine_witness:
  "\<not> ffmpegAvailable (demo_server\<lparr>ffmpegAvailable := False, streams_dir := False\<rparr>) \<and>
   processLiveStream ok_host ''//c/4.m3u8'' ''42''
       (demo_server\<lparr>ffmpegAvailable := False, streams_dir := False\<rparr>) =
     (demo_server\<lparr>ffmpegAvailable := False, streams_dir := False\<rparr>,
      Inr \<lparr>originalUrl = ''//c/4.m3u8'', transcodedUrl = None,
           result_ffmpegAvailable = False, result_error = None\<rparr>)"
  using passthrough_without_engine
    [of "demo_server\<lparr>ffmpegAvailable := False, streams_dir := False\<rparr>" ok_host "''//c/4.m3u8''" "''42''"]
  by simp

lemma processLiveStream_returns:
  "\<exists>sv' r. processLiveStream h streamUrl sessionId sv = (sv', Inr r) \<and> originalUrl r = streamUrl"
proof (cases "ffmpegAvailable sv")
  case False
  then show ?thesis by (simp add: processLiveStream_def)
next
  case True
  obtain sv1 x where t: "transcode h streamUrl sessionId sv = (sv1, x)"
    by (cases "transcode h streamUrl sessionId sv")
  show ?thesis
  proof (cases x)
    case (Inl m)
    with t True show ?thesis by (simp add: processLiveStream_def)
  next
    case (Inr r)
    with t have "originalUrl r = streamUrl"
      by (auto simp: transcode_def split: sum.splits option.splits)
    with t True Inr show ?thesis by (simp add: processLiveStream_def)
  qed
qed

lemma processLiveStream_caught:
  assumes "ffmpegAvailable sv" and "transcode h streamUrl sessionId sv = (sv1, Inl m)"
  shows "processLiveStream h streamUrl sessionId sv =
        (sv1, Inr \<lparr>originalUrl = streamUrl, transcodedUrl = None,
                   result_ffmpegAvailable = False, result_error = Some m\<rparr>)"
  using assms by (simp add: processLiveStream_def)

text \<open>
  Claim C10. \<^verbatim>\<open>processLiveStream\<close> always returns a result, whose \<open>originalUrl\<close> is the
  input URL. When the flag is true and the \<^verbatim>\<open>try\<close> block throws with message
  \<open>m\<close>, the result has no transcoded URL, reports the engine as unavailable and carries
  \<open>m\<close> in its error field.
\<close>

theorem processLiveStream_catches:
  "(\<exists>sv' r. processLiveStream h streamUrl sessionId sv = (sv', Inr r) \<and>
            originalUrl r = streamUrl) \<and>
   (ffmpegAvailable sv \<and> transcode h streamUrl sessionId sv = (sv1, Inl m) \<longrightarrow>
      processLiveStream h streamUrl sessionId sv =
        (sv1, Inr \<lparr>originalUrl = streamUrl, transcodedUrl = None,
                   result_ffmpegAvailable = False, result_error = Some m\<rparr>))"
  using processLiveStream_returns processLiveStream_caught by blast

text \<open>An instance: the engine is available and the output directory does not exist and
  cannot be created.\<close>

theorem processLiveStream_catches_witness:
  "ffmpegAvailable (demo_server\<lparr>streams_dir := False\<rparr>) \<and>
   transcode readonly_host ''//c/4.m3u8'' ''42'' (demo_server\<lparr>streams_dir := False\<rparr>) =
     (demo_server\<lparr>streams_dir := False\<rparr>, Inl ''EACCES'') \<and>
   processLiveStream readonly_host ''//c/4.m3u8'' ''42'' (demo_server\<lparr>streams_dir := False\<rparr>) =
     (demo_server\<lparr>streams_dir := False\<rparr>,
      Inr \<lparr>originalUrl = ''//c/4.m3u8'', transcodedUrl = None,
           result_ffmpegAvailable = False, result_error = Some ''EACCES''\<rparr>)"
proof -
  have a: "ffmpegAvailable (demo_server\<lparr>streams_dir := False\<rparr>)"
    by (simp add: demo_server_def)
  have t: "transcode readonly_host ''//c/4.m3u8'' ''42'' (demo_server\<lparr>streams_dir := False\<rparr>) =
     (demo_server\<lparr>streams_dir := False\<rparr>, Inl ''EACCES'')"
    by (simp add: transcode_def ensure_dir_def readonly_host_def)
  show ?thesis
    using processLiveStream_catches
      [of readonly_host "''//c/4.m3u8''" "''42''" "demo_server\<lparr>streams_dir := False\<rparr>"
          "demo_server\<lparr>streams_dir := False\<rparr>" "''EACCES''"] a t
    by simp
qed

section \<open>Session ids of the REST start handler\<close>

lemma start_stream_session_id:
  assumes "start_stream now url b h sv = (sv', Started sid r)"
  shows "sid = toString now"
proof (cases url)
  case None
  with assms show ?thesis by (simp add: start_stream_def)
next
  case (Some u)
  show ?thesis
  proof (cases "snd (extractLiveStreamUrl b u)")
    case (Inl e)
    with assms Some show ?thesis by (simp add: start_stream_def split: if_splits)
  next
    case (Inr streamUrl)
    obtain sv2 x where p: "processLiveStream h streamUrl (toString now) sv = (sv2, x)"
      by (cases "processLiveStream h streamUrl (toString now) sv")
    with assms Some Inr show ?thesis
      by (cases x) (simp_all add: start_stream_def split: if_splits)
  qed
qed

lemma ensure_dir_frame:
  "ensure_dir h sv = Inr sv1 \<Longrightarrow>
   activeLiveStreams sv1 = activeLiveStreams sv \<and> commands sv1 = commands sv \<and>
   count_list (trace sv1) (Kill q) = count_list (trace sv) (Kill q)"
  by (auto simp: ensure_dir_def split: if_splits option.splits)

lemma transcode_registers:
  assumes "transcode h streamUrl sid sv = (sv', Inr r)"
  shows "activeLiveStreams sv' sid = Some (commands sv) \<and>
         count_list (trace sv') (Kill q) = count_list (trace sv) (Kill q)"
proof -
  from assms obtain sv1 where e: "ensure_dir h sv = Inr sv1" and f: "ffmpeg_throws h = None"
    by (auto simp: transcode_def split: sum.splits option.splits)
  from assms e f have "sv' = sv1\<lparr>commands := Suc (commands sv1),
                    activeLiveStreams := (activeLiveStreams sv1)(sid \<mapsto> commands sv1),
                    trace := trace sv1 @
                      [Run (commands sv1) streamUrl (outputPath sid),
                       TableSet sid (commands sv1)]\<rparr>"
    by (simp add: transcode_def)
  then show ?thesis using ensure_dir_frame [OF e, of q] by simp
qed

lemma processLiveStream_registers:
  assumes "processLiveStream h streamUrl sid sv = (sv', Inr r)" and "result_ffmpegAvailable r"
  shows "activeLiveStreams sv' sid = Some (commands sv) \<and>
         count_list (trace sv') (Kill q) = count_list (trace sv) (Kill q)"
proof -
  have av: "ffmpegAvailable sv"
    using assms by (auto simp: processLiveStream_def split: if_splits)
  obtain sv1 x where t: "transcode h streamUrl sid sv = (sv1, x)"
    by (cases "transcode h streamUrl sid sv")
  show ?thesis
  proof (cases x)
    case (Inl m)
    with t av assms show ?thesis by (auto simp: processLiveStream_def)
  next
    case (Inr r')
    with t av assms have "sv' = sv1" by (simp add: processLiveStream_def)
    with t Inr transcode_registers show ?thesis by blast
  qed
qed

text \<open>
  Claim C9. The session id in a reply of the REST start handler is the decimal form of the
  clock value and nothing else, so two requests that read the same clock value get the
  same id, whatever their URLs, pages and servers. And when \<^verbatim>\<open>processLiveStream\<close>
  starts a transcode under an id whose entry holds an earlier process \<open>p\<close>, the entry then
  holds the new command, which is not \<open>p\<close>, and no \<^verbatim>\<open>kill\<close> was called on any
  process.
\<close>

theorem session_id_collision:
  "(start_stream now url1 b1 h1 sva = (sva', Started sid1 r1) \<and>
    start_stream now url2 b2 h2 svb = (svb', Started sid2 r2) \<longrightarrow>
      sid1 = toString now \<and> sid2 = sid1) \<and>
   (activeLiveStreams sv sid = Some p \<and> p < commands sv \<and>
    processLiveStream h streamUrl sid sv = (sv', Inr r) \<and> result_ffmpegAvailable r \<longrightarrow>
      activeLiveStreams sv' sid = Some (commands sv) \<and> commands sv \<noteq> p \<and>
      (\<forall>q. count_list (trace sv') (Kill q) = count_list (trace sv) (Kill q)))"
proof (intro conjI impI allI)
  assume a: "start_stream now url1 b1 h1 sva = (sva', Started sid1 r1) \<and>
    start_stream now url2 b2 h2 svb = (svb', Started sid2 r2)"
  then show "sid1 = toString now" using start_stream_session_id by blast
  from a show "sid2 = sid1" using start_stream_session_id by blast
next
  assume a: "activeLiveStreams sv sid = Some p \<and> p < commands sv \<and>
    processLiveStream h streamUrl sid sv = (sv', Inr r) \<and> result_ffmpegAvailable r"
  then show "activeLiveStreams sv' sid = Some (commands sv)"
    using processLiveStream_registers by blast
  from a show "commands sv \<noteq> p" by simp
  fix q
  from a show "count_list (trace sv') (Kill q) = count_list (trace sv) (Kill q)"
    using processLiveStream_registers by blast
qed

text \<open>An instance: both requests are answered with session id 42; the second start puts
  command 3 where command 2 was, and command 2 is never signalled.\<close>

lemma toString_42: "toString 42 = ''42''"
  by (simp add: toString.simps)

lemma dom_run:
  "extractLiveStreamUrl dom_browser ''live.example.com/live/555'' =
     ([Launch, FoundInDom, Extracted ''https://a.example.com/555/play.m3u8'', Close],
      Inr ''https://a.example.com/555/play.m3u8'')"
  by (simp add: discovery_defs dom_browser_def idle_browser_def)

lemma net_run:
  "extractLiveStreamUrl net_browser ''live.example.com/live/555'' =
     ([Launch, FoundLiveRequest ''//c/4.m3u8'', Extracted ''//c/4.m3u8'', Close],
      Inr ''//c/4.m3u8'')"
  by (simp add: discovery_defs net_browser_def idle_browser_def)

lemma first_start_eval:
  "first_start =
     (\<lparr>ffmpegAvailable = True, port = ''3001'',
       activeLiveStreams = [''17'' \<mapsto> 0, ''18'' \<mapsto> 1, ''42'' \<mapsto> 2],
       commands = 3, streams_dir = True,
       trace = [Run 2 ''https://a.example.com/555/play.m3u8'' ''public/streams/42.mp4'',
                TableSet ''42'' 2]\<rparr>,
      Started ''42''
        \<lparr>originalUrl = ''https://a.example.com/555/play.m3u8'',
         transcodedUrl = Some ''http://localhost:3001/streams/42.mp4'',
         result_ffmpegAvailable = True, result_error = None\<rparr>)"
  by (simp add: first_start_def start_stream_def dom_run toString_42 processLiveStream_def
      transcode_def ensure_dir_def demo_server_def ok_host_def outputPath_def path_normalize_def
      path_step_def outputUrl_def)

lemma second_start_eval:
  "second_start =
     (\<lparr>ffmpegAvailable = True, port = ''3001'',
       activeLiveStreams = [''17'' \<mapsto> 0, ''18'' \<mapsto> 1, ''42'' \<mapsto> 3],
       commands = 4, streams_dir = True,
       trace = [Run 2 ''https://a.example.com/555/play.m3u8'' ''public/streams/42.mp4'',
                TableSet ''42'' 2,
                Run 3 ''//c/4.m3u8'' ''public/streams/42.mp4'',
                TableSet ''42'' 3]\<rparr>,
      Started ''42''
        \<lparr>originalUrl = ''//c/4.m3u8'',
         transcodedUrl = Some ''http://localhost:3001/streams/42.mp4'',
         result_ffmpegAvailable = True, result_error = None\<rparr>)"
  by (simp add: second_start_def first_start_eval start_stream_def net_run toString_42
      processLiveStream_def transcode_def ensure_dir_def ok_host_def outputPath_def
      path_normalize_def path_step_def outputUrl_def)

theorem session_id_collision_witness:
  "snd first_start = Started ''42''
        \<lparr>originalUrl = ''https://a.example.com/555/play.m3u8'',
         transcodedUrl = Some ''http://localhost:3001/streams/42.mp4'',
         result_ffmpegAvailable = True, result_error = None\<rparr> \<and>
   snd second_start = Started ''42''
        \<lparr>originalUrl = ''//c/4.m3u8'',
         transcodedUrl = Some ''http://localhost:3001/streams/42.mp4'',
         result_ffmpegAvailable = True, result_error = None\<rparr> \<and>
   activeLiveStreams (fst first_start) ''42'' = Some 2 \<and>
   activeLiveStreams (fst second_start) ''42'' = Some 3 \<and>
   count_list (trace (fst second_start)) (Kill 2) = 0"
proof -
  let ?r1 = "\<lparr>originalUrl = ''https://a.example.com/555/play.m3u8'',
         transcodedUrl = Some ''http://localhost:3001/streams/42.mp4'',
         result_ffmpegAvailable = True, result_error = None\<rparr>"
  let ?r2 = "\<lparr>originalUrl = ''//c/4.m3u8'',
         transcodedUrl = Some ''http://localhost:3001/streams/42.mp4'',
         result_ffmpegAvailable = True, result_error = None\<rparr>"
  have s1: "start_stream 42 (Some ''live.example.com/live/555'') dom_browser ok_host demo_server =
      (fst first_start, Started ''42'' ?r1)"
    unfolding first_start_def [symmetric] by (simp add: first_start_eval)
  have s2: "start_stream 42 (Some ''live.example.com/live/555'') net_browser ok_host (fst first_start) =
      (fst second_start, Started ''42'' ?r2)"
    unfolding second_start_def [symmetric] by (simp add: second_start_eval)
  have p: "processLiveStream ok_host ''//c/4.m3u8'' ''42'' (fst first_start) =
      (fst second_start, Inr ?r2)"
    by (simp add: first_start_eval second_start_eval processLiveStream_def transcode_def
        ensure_dir_def ok_host_def outputPath_def path_normalize_def path_step_def outputUrl_def)
  have e: "activeLiveStreams (fst first_start) ''42'' = Some 2 \<and> 2 < commands (fst first_start) \<and>
      count_list (trace (fst first_start)) (Kill 2) = 0"
    by (simp add: first_start_eval)
  show ?thesis
    using session_id_collision
      [of 42 "Some ''live.example.com/live/555''" dom_browser ok_host demo_server
          "fst first_start" "''42''" ?r1
          "Some ''live.example.com/live/555''" net_browser ok_host "fst first_start"
          "fst second_start" "''42''" ?r2
          "fst first_start" "''42''" 2 ok_host "''//c/4.m3u8''" "fst second_start" ?r2]
      s1 s2 p e
    by (simp add: first_start_eval second_start_eval)
qed


section \<open>Request observation\<close>

lemma foldl_on_request:
  "foldl (\<lambda>buckets url. on_request url buckets) (ms, ls) urls =
     (ms @ filter (\<lambda>u. media_like u \<and> \<not> has_stream_ext u \<and> \<not> decoy u) urls,
      ls @ filter (\<lambda>u. has_stream_ext u \<and> \<not> decoy u) urls)"
proof (induction urls arbitrary: ms ls)
  case Nil
  then show ?case by simp
next
  case (Cons url urls)
  have step: "on_request url (ms, ls) =
      (ms @ (if media_like url \<and> \<not> has_stream_ext url \<and> \<not> decoy url then [url] else []),
       ls @ (if has_stream_ext url \<and> \<not> decoy url then [url] else []))"
    by (simp add: on_request_def media_like_def has_stream_ext_def)
  show ?case by (simp add: step Cons.IH)
qed

lemma observe_filter:
  "observe urls =
     (filter (\<lambda>u. media_like u \<and> \<not> has_stream_ext u \<and> \<not> decoy u) urls,
      filter (\<lambda>u. has_stream_ext u \<and> \<not> decoy u) urls)"
  by (simp add: observe_def foldl_on_request)

lemma last_filter: "filter P xs \<noteq> [] \<Longrightarrow> P (last (filter P xs))"
  using last_in_set [of "filter P xs"] by auto

text \<open>The newest entry of a bucket is a URL that line 571 would accept.\<close>

lemma live_bucket_last:
  assumes "liveStreamRequests b \<noteq> []"
  shows "usable (Some (last (liveStreamRequests b))) \<and> has_stream_ext (last (liveStreamRequests b))"
proof -
  let ?P = "\<lambda>u. has_stream_ext u \<and> \<not> decoy u"
  have eq: "liveStreamRequests b = filter ?P (request_urls b)"
    by (simp add: liveStreamRequests_def observe_filter)
  with assms have "?P (last (filter ?P (request_urls b)))"
    using last_filter [of ?P "request_urls b"] by simp
  then show ?thesis by (simp add: eq usable_def has_stream_ext_nonempty)
qed

lemma media_bucket_last:
  assumes "mediaRequests b \<noteq> []"
  shows "usable (Some (last (mediaRequests b))) \<and> \<not> has_stream_ext (last (mediaRequests b))"
proof -
  let ?P = "\<lambda>u. media_like u \<and> \<not> has_stream_ext u \<and> \<not> decoy u"
  have eq: "mediaRequests b = filter ?P (request_urls b)"
    by (simp add: mediaRequests_def observe_filter)
  with assms have "?P (last (filter ?P (request_urls b)))"
    using last_filter [of ?P "request_urls b"] by simp
  then show ?thesis by (simp add: eq usable_def media_like_nonempty)
qed

text \<open>
  Claim C8, as the code has it. Nothing is ever removed from a bucket: the
  high-confidence bucket is the list of all observed URLs with a streaming extension and
  without the marker, the low-confidence bucket the list of all other media-like URLs
  without the marker, both in arrival order. A bucket is as long as the number of such
  requests.
\<close>

theorem buckets_keep_every_match:
  "liveStreamRequests b = filter (\<lambda>u. has_stream_ext u \<and> \<not> decoy u) (request_urls b) \<and>
   mediaRequests b =
     filter (\<lambda>u. media_like u \<and> \<not> has_stream_ext u \<and> \<not> decoy u) (request_urls b)"
  by (simp add: liveStreamRequests_def mediaRequests_def observe_filter)

theorem buckets_keep_every_match_witness:
  "liveStreamRequests net_browser = [''//c/1.flv'', ''//c/4.m3u8''] \<and>
   mediaRequests net_browser = [''//c/2.mp4'']"
  using buckets_keep_every_match [of net_browser]
  by (simp add: net_browser_def idle_browser_def media_like_def has_stream_ext_def decoy_def)

text \<open>No number bounds the buckets: \<open>N + 1\<close> requests for a \<^verbatim>\<open>.flv\<close> URL leave
  \<open>N + 1\<close> entries in the high-confidence bucket.\<close>

theorem buckets_unbounded:
  "\<not> (\<exists>N. \<forall>b. length (liveStreamRequests b) \<le> N \<and> length (mediaRequests b) \<le> N)"
proof
  assume "\<exists>N. \<forall>b. length (liveStreamRequests b) \<le> N \<and> length (mediaRequests b) \<le> N"
  then obtain N where n: "\<forall>b. length (liveStreamRequests b) \<le> N \<and> length (mediaRequests b) \<le> N" ..
  let ?b = "idle_browser\<lparr>request_urls := replicate (Suc N) ''//c/1.flv''\<rparr>"
  have "has_stream_ext ''//c/1.flv'' \<and> \<not> decoy ''//c/1.flv''"
    by (simp add: has_stream_ext_def decoy_def)
  then have "liveStreamRequests ?b = replicate (Suc N) ''//c/1.flv''"
    by (simp add: liveStreamRequests_def observe_filter)
  then have "length (liveStreamRequests ?b) = Suc N" by simp
  with n show False by (metis Suc_n_not_le_n)
qed

section \<open>Address validation\<close>

text \<open>
  Where the guard of lines 97 to 100 rejects. An address with neither domain and without
  \<^verbatim>\<open>/live/\<close> gets the invalid-link error, before anything is launched, provided
  it has \<^verbatim>\<open>http\<close> in it or does not begin with \<^verbatim>\<open>live/\<close>.
\<close>

lemma invalid_link_fails_fast:
  assumes "\<not> str_includes url ''douyin.com''" and "\<not> str_includes url ''tiktok.com''"
    and "\<not> str_includes url ''/live/''"
    and "str_includes url ''http'' \<or> \<not> prefix ''live/'' url"
  shows "extractLiveStreamUrl b url = ([], Inl InvalidLink)"
  using assms by (auto simp: extractLiveStreamUrl_def normalize_url_def)

lemma invalid_link_fails_fast_witness:
  "\<not> str_includes ''example.com/room/7'' ''douyin.com'' \<and>
   \<not> str_includes ''example.com/room/7'' ''tiktok.com'' \<and>
   \<not> str_includes ''example.com/room/7'' ''/live/'' \<and>
   \<not> prefix ''live/'' ''example.com/room/7'' \<and>
   extractLiveStreamUrl dom_browser ''example.com/room/7'' = ([], Inl InvalidLink)"
  using invalid_link_fails_fast [of "''example.com/room/7''" dom_browser]
  by simp

text \<open>
  Claim C4. An address with neither domain and without \<^verbatim>\<open>/live/\<close> is to fail with
  the invalid-link error before any browser is launched. The guard of lines 97 to 100 is
  there to reject such an address, but it looks for \<^verbatim>\<open>/live/\<close> in the address
  after lines 94 to 96 have put \<^verbatim>\<open>https://\<close> in front of it. The address
  \<^verbatim>\<open>live/7\<close> has neither domain and no \<^verbatim>\<open>/live/\<close>, yet it becomes
  \<^verbatim>\<open>https://live/7\<close>, which passes the test: a browser is launched, the
  strategies run on the page, and the attempt ends with the other error.
\<close>

theorem invalid_link_counterexample:
  "\<not> str_includes ''live/7'' ''douyin.com'' \<and> \<not> str_includes ''live/7'' ''tiktok.com'' \<and>
   \<not> str_includes ''live/7'' ''/live/'' \<and>
   normalize_url ''live/7'' = Inr ''https://live/7'' \<and>
   extractLiveStreamUrl idle_browser ''live/7'' =
     ([Launch, AnalyzeNetwork, TryFurther, TryApi, WriteHtml ''<html/>'', Screenshot, Close],
      Inl NoStreamUrl)"
  by (simp add: discovery_defs idle_browser_def)

section \<open>The browser's lifetime\<close>

text \<open>No step of the \<^verbatim>\<open>try\<close> block launches or closes a browser.\<close>

lemma on_response_count:
  "e = Launch \<or> e = Close \<Longrightarrow>
   count_list (snd (on_response vals st)) e = count_list (snd st) e"
  by (auto simp: on_response_def split: option.splits)

lemma foldl_on_response_count:
  "e = Launch \<or> e = Close \<Longrightarrow>
   count_list (snd (foldl (\<lambda>st vals. on_response vals st) st rs)) e =
   count_list (snd st) e"
  by (induction rs arbitrary: st) (simp_all add: on_response_count)

lemma cdp_window_count:
  "e = Launch \<or> e = Close \<Longrightarrow>
   count_list (snd (cdp_window b w installed st)) e = count_list (snd st) e"
  by (simp add: cdp_window_def foldl_on_response_count)

lemma network_phase_count:
  assumes "e = Launch \<or> e = Close"
  shows "count_list (fst (network_phase b s log)) e = count_list log e"
  using assms cdp_window_count [OF assms, of b DuringWait True "(s, log @ [AnalyzeNetwork])"]
  by (auto simp: network_phase_def split: option.splits)

lemma take_script_count:
  "e = Launch \<or> e = Close \<Longrightarrow> count_list (snd (take_script b st)) e = count_list (snd st) e"
  by (auto simp: take_script_def split: option.splits)

lemma script_phase_count:
  assumes "e = Launch \<or> e = Close"
  shows "count_list (snd (script_phase b installed st)) e = count_list (snd st) e"
  using assms
    cdp_window_count [OF assms, of b DuringScript installed "(fst st, snd st @ [TryFurther])"]
  by (auto simp: script_phase_def take_script_count)

lemma take_api_count:
  "e = Launch \<or> e = Close \<Longrightarrow> count_list (snd (take_api b r st)) e = count_list (snd st) e"
  by (auto simp: take_api_def split: sum.splits)

lemma api_phase_count:
  assumes "e = Launch \<or> e = Close"
  shows "count_list (snd (api_phase b installed u st)) e = count_list (snd st) e"
  using assms
    cdp_window_count [OF assms, of b DuringApi installed "(fst st, snd st @ [TryApi])"]
  by (auto simp: api_phase_def take_api_count split: option.splits)

lemma verdict_count:
  "e = Launch \<or> e = Close \<Longrightarrow> count_list (fst (verdict st)) e = count_list (snd st) e"
  by (auto simp: verdict_def split: option.splits)

lemma after_content_count:
  "e = Launch \<or> e = Close \<Longrightarrow>
   count_list (snd (after_content b installed st)) e = count_list (snd st) e"
  by (simp add: after_content_def cdp_window_count)

lemma after_screenshot_count:
  assumes "e = Launch \<or> e = Close"
  shows "count_list (snd (after_screenshot b installed c st)) e = count_list (snd st) e"
  using assms
  by (auto simp: after_screenshot_def cdp_window_count log_effect_def after_content_count)

lemma diagnostics_count:
  assumes "e = Launch \<or> e = Close"
  shows "count_list (fst (diagnostics b installed st)) e = count_list (snd st) e"
proof -
  have "\<And>c. count_list (fst (verdict (log_effect Screenshot (after_screenshot b installed c st)))) e =
      count_list (snd st) e"
    using assms by (auto simp: verdict_count log_effect_def after_screenshot_count)
  then show ?thesis using assms
    by (auto simp: diagnostics_def after_content_count after_screenshot_count
        split: option.splits sum.splits)
qed

lemma finish_count:
  assumes "e = Launch \<or> e = Close"
  shows "count_list (fst (finish b installed st)) e = count_list (snd st) e"
  using assms diagnostics_count [OF assms, of b installed st]
  by (auto simp: finish_def split: option.splits)

lemma discover_count:
  assumes "e = Launch \<or> e = Close"
  shows "count_list (fst (discover b u log)) e = count_list log e"
proof (cases "page_rejects b")
  case (Some m)
  then show ?thesis by (simp add: discover_def)
next
  case None
  obtain log1 x where n: "network_phase b (dom_extraction b) log = (log1, x)"
    by (cases "network_phase b (dom_extraction b) log")
  have c1: "count_list log1 e = count_list log e"
    using network_phase_count [OF assms, of b "dom_extraction b" log] n by simp
  show ?thesis
  proof (cases x)
    case (Inl err)
    with None n c1 show ?thesis by (simp add: discover_def)
  next
    case (Inr p)
    obtain s installed where p: "p = (s, installed)" by (cases p)
    have "count_list (fst (discover b u log)) e =
          count_list (snd (api_phase b installed u (script_phase b installed (s, log1)))) e"
      using None n Inr p by (simp add: discover_def finish_count [OF assms])
    also have "\<dots> = count_list log1 e"
      by (simp add: api_phase_count [OF assms] script_phase_count [OF assms])
    finally show ?thesis using c1 by simp
  qed
qed

text \<open>
  Claim C5. Whatever the page does and however the attempt ends (a returned URL, a
  returned marked URL, or any error), an attempt that launched a browser calls
  \<^verbatim>\<open>browser.close()\<close> exactly once, as its last action; an attempt that launched none
  does nothing at all.
\<close>

theorem browser_closed_on_every_path:
  "(Launch \<in> set (fst (extractLiveStreamUrl b url)) \<longrightarrow>
      count_list (fst (extractLiveStreamUrl b url)) Close = 1 \<and>
      last (fst (extractLiveStreamUrl b url)) = Close) \<and>
   (Launch \<notin> set (fst (extractLiveStreamUrl b url)) \<longrightarrow>
      fst (extractLiveStreamUrl b url) = [])"
proof (cases "normalize_url url")
  case (Inl e)
  then show ?thesis by (simp add: extractLiveStreamUrl_def)
next
  case (Inr u)
  show ?thesis
  proof (cases "launch_rejects b")
    case (Some m)
    with Inr show ?thesis by (simp add: extractLiveStreamUrl_def)
  next
    case None
    obtain log r where d: "discover b u [Launch] = (log, r)"
      by (cases "discover b u [Launch]")
    have c: "count_list log Close = 0" and l: "count_list log Launch = 1"
      using discover_count [of Close b u "[Launch]"] discover_count [of Launch b u "[Launch]"] d
      by simp_all
    from l have m: "Launch \<in> set log" by (metis count_list_0_iff zero_neq_one)
    have "fst (extractLiveStreamUrl b url) = log @ [Close]"
      using Inr None d by (simp add: extractLiveStreamUrl_def split: option.splits)
    with c m show ?thesis by simp
  qed
qed

text \<open>Instances: an attempt on which nothing is found, and a rejected address.\<close>

lemma idle_run:
  "extractLiveStreamUrl idle_browser ''https://live.douyin.com/1'' =
     ([Launch, AnalyzeNetwork, TryFurther, TryApi, WriteHtml ''<html/>'', Screenshot, Close],
      Inl NoStreamUrl)"
  by (simp add: discovery_defs idle_browser_def)

lemma reject_run: "extractLiveStreamUrl idle_browser ''example.com'' = ([], Inl InvalidLink)"
  by (simp add: extractLiveStreamUrl_def normalize_url_def)

theorem browser_closed_witness:
  "(Launch \<in> set (fst (extractLiveStreamUrl idle_browser ''https://live.douyin.com/1'')) \<and>
    count_list (fst (extractLiveStreamUrl idle_browser ''https://live.douyin.com/1'')) Close = 1 \<and>
    last (fst (extractLiveStreamUrl idle_browser ''https://live.douyin.com/1'')) = Close) \<and>
   (Launch \<notin> set (fst (extractLiveStreamUrl idle_browser ''example.com'')) \<and>
    fst (extractLiveStreamUrl idle_browser ''example.com'') = [])"
  using browser_closed_on_every_path [of idle_browser "''https://live.douyin.com/1''"]
    browser_closed_on_every_path [of idle_browser "''example.com''"]
  by (simp add: idle_run reject_run)

section \<open>The order of the strategies\<close>

lemma dom_extraction_requests: "dom_extraction (b\<lparr>request_urls := rs\<rparr>) = dom_extraction b"
  by (simp add: dom_extraction_def split: sum.splits)

text \<open>With a usable URL in hand, the script and the query are skipped and the URL is
  returned.\<close>

lemma settled:
  "usable (Some x) \<Longrightarrow>
   finish b i (api_phase b i u (script_phase b i (Some x, log))) = (log @ [Extracted x], Inr x)"
  by (simp add: script_phase_def api_phase_def finish_def)

lemma extract_unfold:
  assumes "normalize_url url = Inr u" and "launch_rejects b = None"
    and "page_rejects b = None" and "close_rejects b = None"
    and "network_phase b (dom_extraction b) [Launch] = (log1, Inr (s, i))"
    and "finish b i (api_phase b i u (script_phase b i (s, log1))) = (log, r)"
  shows "extractLiveStreamUrl b url = (log @ [Close], r)"
  using assms by (simp add: extractLiveStreamUrl_def discover_def)

text \<open>
  Claim C3. Take an attempt whose address is accepted and whose launch, page set-up and
  close succeed. If DOM extraction yields a non-empty URL without the marker, that URL is
  returned, and the attempt does and returns the same whatever requests were observed. If
  DOM extraction yields no such URL and the high-confidence bucket is not empty, its newest
  entry is returned, a URL with a streaming extension. If that bucket is empty and the
  low-confidence bucket is not, the newest entry of the latter is returned.
\<close>

theorem fallback_order:
  assumes "normalize_url url = Inr u" and "launch_rejects b = None"
    and "page_rejects b = None" and "close_rejects b = None"
  shows "(dom_extraction b = Some d \<and> usable (Some d) \<longrightarrow>
            (\<forall>rs. extractLiveStreamUrl (b\<lparr>request_urls := rs\<rparr>) url =
                    ([Launch, FoundInDom, Extracted d, Close], Inr d))) \<and>
         (\<not> usable (dom_extraction b) \<and> liveStreamRequests b \<noteq> [] \<longrightarrow>
            extractLiveStreamUrl b url =
              ([Launch, FoundLiveRequest (last (liveStreamRequests b)),
                Extracted (last (liveStreamRequests b)), Close],
               Inr (last (liveStreamRequests b))) \<and>
            has_stream_ext (last (liveStreamRequests b))) \<and>
         (\<not> usable (dom_extraction b) \<and> liveStreamRequests b = [] \<and> mediaRequests b \<noteq> [] \<longrightarrow>
            extractLiveStreamUrl b url =
              ([Launch, FoundMediaRequest (last (mediaRequests b)),
                Extracted (last (mediaRequests b)), Close],
               Inr (last (mediaRequests b))) \<and>
            \<not> has_stream_ext (last (mediaRequests b)))"
proof (intro conjI impI allI)
  fix rs
  assume a: "dom_extraction b = Some d \<and> usable (Some d)"
  let ?b = "b\<lparr>request_urls := rs\<rparr>"
  have d: "dom_extraction ?b = Some d" using a by (simp add: dom_extraction_requests)
  have n: "network_phase ?b (dom_extraction ?b) [Launch] = ([Launch, FoundInDom], Inr (Some d, False))"
    using a d by (simp add: network_phase_def)
  show "extractLiveStreamUrl ?b url = ([Launch, FoundInDom, Extracted d, Close], Inr d)"
    using extract_unfold [of url u ?b, OF _ _ _ _ n settled] assms a by simp
next
  assume a: "\<not> usable (dom_extraction b) \<and> liveStreamRequests b \<noteq> []"
  let ?x = "last (liveStreamRequests b)"
  have n: "network_phase b (dom_extraction b) [Launch] =
      ([Launch, FoundLiveRequest ?x], Inr (Some ?x, False))"
    using a by (simp add: network_phase_def)
  show "extractLiveStreamUrl b url = ([Launch, FoundLiveRequest ?x, Extracted ?x, Close], Inr ?x)"
    using extract_unfold [OF assms n settled] live_bucket_last a by simp
  show "has_stream_ext ?x" using live_bucket_last a by simp
next
  assume a: "\<not> usable (dom_extraction b) \<and> liveStreamRequests b = [] \<and> mediaRequests b \<noteq> []"
  let ?x = "last (mediaRequests b)"
  have n: "network_phase b (dom_extraction b) [Launch] =
      ([Launch, FoundMediaRequest ?x], Inr (Some ?x, False))"
    using a by (simp add: network_phase_def)
  show "extractLiveStreamUrl b url = ([Launch, FoundMediaRequest ?x, Extracted ?x, Close], Inr ?x)"
    using extract_unfold [OF assms n settled] media_bucket_last a by simp
  show "\<not> has_stream_ext ?x" using media_bucket_last a by simp
qed

text \<open>Instances, all for the address \<^verbatim>\<open>live.example.com/live/555\<close>: a page with a video
  element (and a request that is not looked at), a page whose requests include two
  streaming URLs, and a page whose requests include media paths only.\<close>

lemma norm_555: "normalize_url ''live.example.com/live/555'' = Inr ''https://live.example.com/live/555''"
  by (simp add: normalize_url_def)

lemma dom_browser_facts:
  "launch_rejects dom_browser = None \<and> page_rejects dom_browser = None \<and>
   close_rejects dom_browser = None \<and>
   dom_extraction dom_browser = Some ''https://a.example.com/555/play.m3u8'' \<and>
   usable (Some ''https://a.example.com/555/play.m3u8'')"
  by (simp add: dom_browser_def idle_browser_def dom_extraction_def usable_def decoy_def)

lemma net_browser_facts:
  "launch_rejects net_browser = None \<and> page_rejects net_browser = None \<and>
   close_rejects net_browser = None \<and> \<not> usable (dom_extraction net_browser) \<and>
   liveStreamRequests net_browser = [''//c/1.flv'', ''//c/4.m3u8'']"
  by (simp add: net_browser_def idle_browser_def dom_extraction_def usable_def decoy_def
      liveStreamRequests_def observe_def on_request_def)

lemma media_browser_facts:
  "launch_rejects media_browser = None \<and> page_rejects media_browser = None \<and>
   close_rejects media_browser = None \<and> \<not> usable (dom_extraction media_browser) \<and>
   liveStreamRequests media_browser = [] \<and>
   mediaRequests media_browser = [''//c/live/1'', ''//c/2.mp4'']"
  by (simp add: media_browser_def idle_browser_def dom_extraction_def usable_def decoy_def
      liveStreamRequests_def mediaRequests_def observe_def on_request_def)

theorem fallback_order_witness:
  "extractLiveStreamUrl (dom_browser\<lparr>request_urls := [''//c/9.flv'']\<rparr>) ''live.example.com/live/555'' =
     ([Launch, FoundInDom, Extracted ''https://a.example.com/555/play.m3u8'', Close],
      Inr ''https://a.example.com/555/play.m3u8'') \<and>
   extractLiveStreamUrl net_browser ''live.example.com/live/555'' =
     ([Launch, FoundLiveRequest ''//c/4.m3u8'', Extracted ''//c/4.m3u8'', Close],
      Inr ''//c/4.m3u8'') \<and>
   extractLiveStreamUrl media_browser ''live.example.com/live/555'' =
     ([Launch, FoundMediaRequest ''//c/2.mp4'', Extracted ''//c/2.mp4'', Close],
      Inr ''//c/2.mp4'')"
  using
    fallback_order [OF norm_555, of dom_browser "''https://a.example.com/555/play.m3u8''"]
    fallback_order [OF norm_555, of net_browser]
    fallback_order [OF norm_555, of media_browser]
  by (simp add: dom_browser_facts net_browser_facts media_browser_facts)

section \<open>The placeholder as a last resort\<close>

subsection \<open>What the guards let through\<close>







subsection \<open>What a window of responses does to \<^verbatim>\<open>streamUrl\<close>\<close>







subsection \<open>A state without a usable URL after a step\<close>






subsection \<open>How an attempt returns a URL\<close>







subsection \<open>When nothing else has a URL\<close>







subsection \<open>The policy\<close>






lemma dom_run_douyin:
  "extractLiveStreamUrl dom_browser ''https://www.douyin.com/live/1'' =
     ([Launch, FoundInDom, Extracted ''https://a.example.com/555/play.m3u8'', Close],
      Inr ''https://a.example.com/555/play.m3u8'')"
  by (simp add: discovery_defs dom_browser_def idle_browser_def)

lemma query_run:
  "extractLiveStreamUrl query_browser ''https://www.douyin.com/live/1'' =
     ([Launch, AnalyzeNetwork, TryFurther, TryApi, FoundFlv ''//c/douyin-pc-web/uuu_2.flv'',
       WriteHtml ''<html/>'', Screenshot, WarnTestVideoOnly, Close],
      Inr ''//c/douyin-pc-web/uuu_2.flv'')"
  by (simp add: discovery_defs query_browser_def placeholder_browser_def idle_browser_def)





end
